theory Spec2Isabelle
  imports Main "HOL-Library.Word"
begin

section \<open>Byte-level helpers of \<^verbatim>\<open>src/util.ts\<close>\<close>

text \<open>
  A \<^verbatim>\<open>Uint8Array\<close> is modelled by the list of its bytes. The four character codes are
  the constants of the source (\<^verbatim>\<open>"\t".charCodeAt(0)\<close> and so on).
\<close>

type_synonym byte = "8 word"

definition HTAB :: byte where "HTAB = 0x09"
definition SPACE :: byte where "SPACE = 0x20"
definition CR :: byte where "CR = 0x0D"
definition LF :: byte where "LF = 0x0A"

text \<open>
  The loop of \<^verbatim>\<open>skipLWSPChar\<close>: \<open>i\<close> walks over \<open>u8\<close>, \<open>j\<close> is the write index into
  \<open>result\<close>. A space or a tab is skipped (\<^verbatim>\<open>continue\<close>), any other byte is stored at
  \<open>result[j++]\<close>. The function returns the final \<open>j\<close> and \<open>result\<close>.
\<close>

function skipLWSPChar_loop :: "byte list \<Rightarrow> nat \<Rightarrow> nat \<Rightarrow> byte list \<Rightarrow> nat \<times> byte list" where
  "skipLWSPChar_loop u8 i j result =
     (if i < length u8 then
        (if u8 ! i = SPACE \<or> u8 ! i = HTAB then skipLWSPChar_loop u8 (i + 1) j result
         else skipLWSPChar_loop u8 (i + 1) (j + 1) (result[j := u8 ! i]))
      else (j, result))"
  by pat_completeness auto
termination
  by (relation "measure (\<lambda>(u8, i, j, result). length u8 - i)") auto

declare skipLWSPChar_loop.simps [simp del]

text \<open>
  \<^verbatim>\<open>skipLWSPChar\<close>: \<open>result\<close> starts as a zero-filled array of the length of \<open>u8\<close>; the
  value returned is \<^verbatim>\<open>result.slice(0, j)\<close>.
\<close>

definition skipLWSPChar :: "byte list \<Rightarrow> byte list" where
  "skipLWSPChar u8 =
     (case skipLWSPChar_loop u8 0 0 (replicate (length u8) 0) of
        (j, result) \<Rightarrow> take j result)"

text \<open>
  \<^verbatim>\<open>stripEol\<close>. On an empty array \<^verbatim>\<open>value[-1]\<close> is \<^verbatim>\<open>undefined\<close>, which is not
  \<open>== LF\<close>, so the array is returned as it is; the model writes that case out.
  \<^verbatim>\<open>value.subarray(0, n)\<close> is \<open>take n value\<close>.
\<close>

definition stripEol :: "byte list \<Rightarrow> byte list" where
  "stripEol value =
     (if 0 < length value \<and> value ! (length value - 1) = LF then
        (let drop = (if length value > 1 \<and> value ! (length value - 2) = CR then 2 else 1 :: nat)
         in take (length value - drop) value)
      else value)"

section \<open>PathResolver: \<^verbatim>\<open>resolvePath\<close>\<close>

text \<open>
  A JavaScript string is modelled as a \<open>string\<close>, the list of its code units (of 8 bits
  here). A thrown exception is a value of type \<open>error\<close>; \<open>resolvePath\<close> returns
  \<open>error + string\<close> with \<open>Inl\<close> for a throw. \<open>HttpError status message\<close> is the error built by
  \<^verbatim>\<open>createHttpError\<close>; the message is \<open>None\<close> when the call gives none.
\<close>

datatype error = TypeError string | HttpError nat "string option"

text \<open>
  Modelled from the spec: \<^verbatim>\<open>createHttpError\<close> is imported from \<^verbatim>\<open>./httpError.ts\<close>, which
  is not among the sources. The spec asks of it only to "construct an error carrying a
  numeric status and message", with the default reason when no message is passed.
\<close>

definition createHttpError :: "nat \<Rightarrow> string option \<Rightarrow> error" where
  "createHttpError status message = HttpError status message"

text \<open>
  \<^verbatim>\<open>UP_PATH_REGEXP = /(?:^|[\\/])\.\.(?:[\\/]|$)/\<close>. \<open>is_slash\<close> is the class \<^verbatim>\<open>[\\/]\<close>;
  \<open>dotdot_here\<close> matches \<^verbatim>\<open>\.\.(?:[\\/]|$)\<close> at the head of a string; \<open>UP_PATH_from start s\<close>
  searches \<open>s\<close> for a match, \<open>start\<close> telling whether \<^verbatim>\<open>(?:^|[\\/])\<close> is satisfied at
  the head of \<open>s\<close> (the input begins there, or the character before is a slash).
\<close>

definition is_slash :: "char \<Rightarrow> bool" where
  "is_slash c = (c = CHR 0x5C \<or> c = CHR ''/'')"

fun dotdot_here :: "string \<Rightarrow> bool" where
  "dotdot_here (a # b # rest) =
     (a = CHR ''.'' \<and> b = CHR ''.'' \<and> (case rest of [] \<Rightarrow> True | c # _ \<Rightarrow> is_slash c))"
| "dotdot_here _ = False"

fun UP_PATH_from :: "bool \<Rightarrow> string \<Rightarrow> bool" where
  "UP_PATH_from start [] = False"
| "UP_PATH_from start (c # cs) =
     ((start \<and> dotdot_here (c # cs)) \<or> UP_PATH_from (is_slash c) cs)"

definition UP_PATH_REGEXP_test :: "string \<Rightarrow> bool" where
  "UP_PATH_REGEXP_test s = UP_PATH_from True s"

text \<open>
  \<^verbatim>\<open>isAbsolute\<close>, \<^verbatim>\<open>join\<close>, \<^verbatim>\<open>normalize\<close> and \<^verbatim>\<open>sep\<close> are imported through
  \<^verbatim>\<open>./deps.ts\<close> from the runtime's path library and depend on the host platform.
  \<open>resolvePath\<close> takes them as a parameter, a record of the four.
\<close>

record path_ops =
  isAbsolute :: "string \<Rightarrow> bool"
  normalize_path :: "string \<Rightarrow> string"
  join :: "string \<Rightarrow> string \<Rightarrow> string"
  sep :: string

text \<open>
  \<^verbatim>\<open>resolvePath(rootPath: string, relativePath?: string)\<close>. An omitted \<open>relativePath\<close> is
  \<open>None\<close>; then the first argument is taken as the path and the root is \<^verbatim>\<open>"."\<close>. The
  test \<^verbatim>\<open>path == null\<close> is kept as the source has it. \<^verbatim>\<open>path.includes("\0")\<close> is
  membership of the character with code 0.
\<close>

definition resolvePath :: "path_ops \<Rightarrow> string \<Rightarrow> string option \<Rightarrow> error + string" where
  "resolvePath ops rootPath relativePath =
     (case (case relativePath of
              None \<Rightarrow> (Some rootPath, ''.'')
            | Some p \<Rightarrow> (Some p, rootPath)) of
        (path, root) \<Rightarrow>
          (case path of
             None \<Rightarrow> Inl (TypeError ''Argument relativePath is required.'')
           | Some path \<Rightarrow>
               if CHR 0x00 \<in> set path then
                 Inl (createHttpError 400 (Some ''Malicious Path''))
               else if isAbsolute ops path then
                 Inl (createHttpError 400 (Some ''Malicious Path''))
               else if UP_PATH_REGEXP_test (normalize_path ops (''.'' @ sep ops @ path)) then
                 Inl (createHttpError 403 None)
               else Inr (normalize_path ops (join ops root path))))"

subsection \<open>The path library on a POSIX host\<close>

text \<open>
  Modelled from the spec: the path library behind \<^verbatim>\<open>./deps.ts\<close> is not among the sources.
  The spec describes \<^verbatim>\<open>normalize\<close> as lexical normalization, "collapsing \<^verbatim>\<open>.\<close>/\<^verbatim>\<open>..\<close>
  components and separator runs" without touching the file system, and \<^verbatim>\<open>join\<close> as
  joining root and relative path. The model is the POSIX flavour (separator \<^verbatim>\<open>/\<close>): a
  path is cut at its slashes; empty segments and \<^verbatim>\<open>.\<close> are dropped; \<^verbatim>\<open>..\<close> removes the
  segment kept before it, unless there is none or it is itself \<^verbatim>\<open>..\<close>, in which case it
  is kept for a relative path and dropped for an absolute one; a trailing slash is kept;
  the empty result of a relative path is \<^verbatim>\<open>.\<close>.
\<close>

fun split_slash :: "string \<Rightarrow> string list" where
  "split_slash [] = [[]]"
| "split_slash (c # cs) =
     (if c = CHR ''/'' then [] # split_slash cs
      else (case split_slash cs of [] \<Rightarrow> [[c]] | seg # segs \<Rightarrow> (c # seg) # segs))"

fun normalize_segments :: "bool \<Rightarrow> string list \<Rightarrow> string list \<Rightarrow> string list" where
  "normalize_segments allowAboveRoot kept [] = rev kept"
| "normalize_segments allowAboveRoot kept (seg # segs) =
     (if seg = [] \<or> seg = ''.'' then normalize_segments allowAboveRoot kept segs
      else if seg = ''..'' then
        (if kept \<noteq> [] \<and> hd kept \<noteq> ''..'' then normalize_segments allowAboveRoot (tl kept) segs
         else if allowAboveRoot then normalize_segments allowAboveRoot (''..'' # kept) segs
         else normalize_segments allowAboveRoot kept segs)
      else normalize_segments allowAboveRoot (seg # kept) segs)"

fun join_slash :: "string list \<Rightarrow> string" where
  "join_slash [] = []"
| "join_slash [seg] = seg"
| "join_slash (seg # segs) = seg @ ''/'' @ join_slash segs"

definition posix_isAbsolute :: "string \<Rightarrow> bool" where
  "posix_isAbsolute path = (path \<noteq> [] \<and> hd path = CHR ''/'')"

definition posix_normalize :: "string \<Rightarrow> string" where
  "posix_normalize path =
     (if path = [] then ''.''
      else
        (let isAbs = (hd path = CHR ''/'');
             trailingSeparator = (last path = CHR ''/'');
             res = join_slash (normalize_segments (\<not> isAbs) [] (split_slash path));
             res1 = (if res = [] \<and> \<not> isAbs then ''.'' else res);
             res2 = (if res1 \<noteq> [] \<and> trailingSeparator then res1 @ ''/'' else res1)
         in if isAbs then CHR ''/'' # res2 else res2))"

definition posix_join :: "string \<Rightarrow> string \<Rightarrow> string" where
  "posix_join a b =
     (let joined = (if a = [] then b else if b = [] then a else a @ ''/'' @ b)
      in if joined = [] then ''.'' else posix_normalize joined)"

definition posix :: path_ops where
  "posix = \<lparr>isAbsolute = posix_isAbsolute, normalize_path = posix_normalize,
             join = posix_join, sep = ''/''\<rparr>"

section \<open>ReaderToStreamBridge: \<^verbatim>\<open>readableStreamFromReader\<close>\<close>

text \<open>
  \<^verbatim>\<open>readableStreamFromReader(reader, options)\<close> hands the two callbacks \<^verbatim>\<open>pull\<close> and
  \<^verbatim>\<open>cancel\<close> to a new \<^verbatim>\<open>ReadableStream\<close> of type \<^verbatim>\<open>"bytes"\<close>; they are the functions \<open>pull\<close>
  and \<open>cancel\<close> below.

  The reader is an object with internal state of some type \<open>'s\<close>. What
  \<^verbatim>\<open>await reader.read(chunk)\<close> can do is one of three things: resolve to \<^verbatim>\<open>null\<close>, resolve
  to a number, or throw (a rejected promise is thrown by \<^verbatim>\<open>await\<close>); \<open>'e\<close> is the type of
  the values a reader throws. The field \<open>read\<close> maps the reader's state and the chunk
  passed to it to the new state, the contents of the chunk after the call and the
  result. The field \<open>close\<close> is \<open>None\<close> for a reader with no \<^verbatim>\<open>close\<close> method; otherwise it
  maps the state to the new state and to the value \<^verbatim>\<open>close()\<close> throws, if it throws.
\<close>

datatype 'e read_result = ReadNull | ReadCount int | ReadThrow 'e

record ('s, 'e) reader =
  read :: "'s \<Rightarrow> byte list \<Rightarrow> 's \<times> byte list \<times> 'e read_result"
  close :: "('s \<Rightarrow> 's \<times> 'e option) option"

definition isCloser :: "('s, 'e) reader \<Rightarrow> bool" where
  "isCloser reader = (close reader \<noteq> None)"

text \<open>
  A value caught by the \<^verbatim>\<open>catch\<close> block of \<^verbatim>\<open>pull\<close> is either a value thrown by the
  reader (by \<^verbatim>\<open>read\<close> or by \<^verbatim>\<open>close\<close>) or the \<^verbatim>\<open>TypeError\<close> with which the stream
  controller refuses a call.
\<close>

datatype 'e thrown = Thrown 'e | ControllerTypeError

text \<open>
  The options, each optional; the defaults are those of the destructuring in the source.
  The queuing strategy is handed to the stream unread and is left out.
\<close>

definition DEFAULT_CHUNK_SIZE :: nat where
  "DEFAULT_CHUNK_SIZE = 16640"

record ReadableStreamFromReaderOptions =
  autoClose :: "bool option"
  chunkSize :: "nat option"

definition autoClose_of :: "ReadableStreamFromReaderOptions \<Rightarrow> bool" where
  "autoClose_of options = (case autoClose options of None \<Rightarrow> True | Some a \<Rightarrow> a)"

definition chunkSize_of :: "ReadableStreamFromReaderOptions \<Rightarrow> nat" where
  "chunkSize_of options = (case chunkSize options of None \<Rightarrow> DEFAULT_CHUNK_SIZE | Some n \<Rightarrow> n)"

text \<open>
  The trace records, in order, every signal the stream controller accepts (an enqueued
  chunk, the end of the stream, an error: what the consumer observes) and every call of
  the reader's \<^verbatim>\<open>close\<close>. The state of a bridge is the reader's state, the state of the
  stream and the trace. The stream is readable while it is idle or pulling.
\<close>

datatype 'e event =
  ControllerEnqueue "byte list"
| ControllerClose
| ControllerError "'e thrown"
| ReaderClose

datatype stream_state = Idle | Pulling | Closed | Errored

record ('s, 'e) bridge =
  source :: 's
  state :: stream_state
  trace :: "'e event list"

definition new_bridge :: "'s \<Rightarrow> ('s, 'e) bridge" where
  "new_bridge s = \<lparr>source = s, state = Idle, trace = []\<rparr>"

definition readable :: "('s, 'e) bridge \<Rightarrow> bool" where
  "readable b = (state b = Idle \<or> state b = Pulling)"

text \<open>
  Modelled from the spec: the stream controller belongs to the platform's
  \<^verbatim>\<open>ReadableStream\<close>, which is not among the sources. The spec asks for "a stream/iterator
  sink supporting enqueue, end-signal, and error-signal operations"; the end signal moves
  the stream to closed and the error signal moves it to errored. The source builds the
  stream with \<^verbatim>\<open>type: "bytes"\<close>, so the controller is the byte-stream controller of the
  Streams standard: \<^verbatim>\<open>enqueue\<close> throws a \<^verbatim>\<open>TypeError\<close> on a chunk of length zero and on a
  stream that is no longer readable, \<^verbatim>\<open>close\<close> throws a \<^verbatim>\<open>TypeError\<close> on a stream that is
  no longer readable, and \<^verbatim>\<open>error\<close> does nothing on such a stream. The second component
  of \<open>controller_enqueue\<close> and \<open>controller_close\<close> is the value thrown, if any.
\<close>

definition controller_enqueue ::
  "byte list \<Rightarrow> ('s, 'e) bridge \<Rightarrow> ('s, 'e) bridge \<times> 'e thrown option" where
  "controller_enqueue chunk b =
     (if chunk = [] then (b, Some ControllerTypeError)
      else if \<not> readable b then (b, Some ControllerTypeError)
      else (b\<lparr>trace := trace b @ [ControllerEnqueue chunk]\<rparr>, None))"

definition controller_close :: "('s, 'e) bridge \<Rightarrow> ('s, 'e) bridge \<times> 'e thrown option" where
  "controller_close b =
     (if \<not> readable b then (b, Some ControllerTypeError)
      else (b\<lparr>trace := trace b @ [ControllerClose], state := Closed\<rparr>, None))"

definition controller_error :: "'e thrown \<Rightarrow> ('s, 'e) bridge \<Rightarrow> ('s, 'e) bridge" where
  "controller_error e b =
     (if \<not> readable b then b
      else b\<lparr>trace := trace b @ [ControllerError e], state := Errored\<rparr>)"

text \<open>
  \<^verbatim>\<open>reader.close()\<close>, called only under \<^verbatim>\<open>isCloser(reader)\<close>: the call is recorded, the
  reader's state is updated, and the second component is the value thrown, if any.
\<close>

definition reader_close ::
  "('s, 'e) reader \<Rightarrow> ('s, 'e) bridge \<Rightarrow> ('s, 'e) bridge \<times> 'e thrown option" where
  "reader_close reader b =
     (case close reader of
        None \<Rightarrow> (b, None)
      | Some c \<Rightarrow>
          (case c (source b) of
             (s', thrown) \<Rightarrow>
               (b\<lparr>source := s', trace := trace b @ [ReaderClose]\<rparr>, map_option Thrown thrown)))"

text \<open>
  \<^verbatim>\<open>chunk.subarray(0, stop)\<close>: a negative \<open>stop\<close> counts from the end of the array, and the
  result is clamped to the array.
\<close>

definition subarray0 :: "byte list \<Rightarrow> int \<Rightarrow> byte list" where
  "subarray0 chunk stop =
     take (nat (if stop < 0 then max (int (length chunk) + stop) 0
                else min stop (int (length chunk)))) chunk"

text \<open>
  The \<^verbatim>\<open>catch (e)\<close> block of \<^verbatim>\<open>pull\<close>: the error is signalled, then the reader is
  closed if it is a closer, whatever \<open>autoClose\<close> says. Nothing catches what this
  \<^verbatim>\<open>reader.close()\<close> throws: it leaves \<^verbatim>\<open>pull\<close>, whose promise is rejected with it. The
  second component of the result is that rejection.
\<close>

definition pull_catch ::
  "('s, 'e) reader \<Rightarrow> 'e thrown \<Rightarrow> ('s, 'e) bridge \<Rightarrow> ('s, 'e) bridge \<times> 'e thrown option" where
  "pull_catch reader e b =
     (let b1 = controller_error e b
      in if isCloser reader then reader_close reader b1 else (b1, None))"

text \<open>
  \<^verbatim>\<open>pull(controller)\<close> is suspended at \<^verbatim>\<open>await reader.read(chunk)\<close>, so it is modelled in
  two steps. \<open>pull_begin\<close> allocates the zero-filled chunk and calls \<^verbatim>\<open>reader.read\<close>; it
  returns the bridge with the reader's new state and the pending outcome of the read
  (the contents of the chunk and the result). \<open>pull_resume\<close> is the rest of the \<^verbatim>\<open>try\<close>
  block, run when the read has settled; the block covers the read, the \<^verbatim>\<open>reader.close()\<close>
  of the end-of-data branch and the calls on the controller, and whatever one of them
  throws goes to the \<^verbatim>\<open>catch\<close> block. \<open>pull\<close> is a pull that nothing interrupts.
\<close>

definition pull_begin ::
  "('s, 'e) reader \<Rightarrow> ReadableStreamFromReaderOptions \<Rightarrow> ('s, 'e) bridge
     \<Rightarrow> ('s, 'e) bridge \<times> byte list \<times> 'e read_result" where
  "pull_begin reader options b =
     (let chunk = replicate (chunkSize_of options) (0 :: byte)
      in case read reader (source b) chunk of
           (s', chunk', r) \<Rightarrow> (b\<lparr>source := s'\<rparr>, chunk', r))"

definition pull_resume ::
  "('s, 'e) reader \<Rightarrow> ReadableStreamFromReaderOptions \<Rightarrow> byte list \<Rightarrow> 'e read_result
     \<Rightarrow> ('s, 'e) bridge \<Rightarrow> ('s, 'e) bridge \<times> 'e thrown option" where
  "pull_resume reader options chunk r b =
     (case r of
        ReadNull \<Rightarrow>
          (case (if isCloser reader \<and> autoClose_of options
                 then reader_close reader b else (b, None)) of
             (b1, Some e) \<Rightarrow> pull_catch reader e b1
           | (b1, None) \<Rightarrow>
               (case controller_close b1 of
                  (b2, Some e) \<Rightarrow> pull_catch reader e b2
                | (b2, None) \<Rightarrow> (b2, None)))
      | ReadCount n \<Rightarrow>
          (case controller_enqueue (subarray0 chunk n) b of
             (b1, Some e) \<Rightarrow> pull_catch reader e b1
           | (b1, None) \<Rightarrow> (b1, None))
      | ReadThrow e \<Rightarrow> pull_catch reader (Thrown e) b)"

definition pull ::
  "('s, 'e) reader \<Rightarrow> ReadableStreamFromReaderOptions \<Rightarrow> ('s, 'e) bridge
     \<Rightarrow> ('s, 'e) bridge \<times> 'e thrown option" where
  "pull reader options b =
     (case pull_begin reader options b of
        (b1, chunk, r) \<Rightarrow> pull_resume reader options chunk r b1)"

text \<open>
  \<^verbatim>\<open>cancel()\<close>: closes the reader if it is a closer and \<open>autoClose\<close> is set. What
  \<^verbatim>\<open>close\<close> throws leaves \<^verbatim>\<open>cancel\<close>.
\<close>

definition cancel ::
  "('s, 'e) reader \<Rightarrow> ReadableStreamFromReaderOptions \<Rightarrow> ('s, 'e) bridge
     \<Rightarrow> ('s, 'e) bridge \<times> 'e thrown option" where
  "cancel reader options b =
     (if isCloser reader \<and> autoClose_of options then reader_close reader b else (b, None))"

subsection \<open>The stream that drives the bridge\<close>

text \<open>
  Modelled from the spec: the \<^verbatim>\<open>ReadableStream\<close> that calls \<^verbatim>\<open>pull\<close> and \<^verbatim>\<open>cancel\<close> is the
  platform's and not among the sources. By the spec the stream is created idle, moves
  to pulling on each demand signal, to closed on end of data or on cancellation and to
  errored on a read failure; no pull is issued once it is closed or errored, and none
  while another is in flight. As in the Streams standard, a pull whose promise is
  rejected errors the stream if the stream is still readable and is discarded otherwise
  (\<open>settle\<close>), and a cancellation closes the stream and then calls \<^verbatim>\<open>cancel\<close>, whether or
  not a pull is in flight. \<open>demand_begin\<close> and \<open>demand_end\<close> are the two halves of the pull
  that a demand signal issues; \<open>demand\<close> is a demand signal whose pull nothing
  interrupts, \<open>demands n\<close> are \<open>n\<close> of them in a row. The second component of
  \<open>cancel_stream\<close> is the rejection of the cancellation.
\<close>

definition settle :: "('s, 'e) bridge \<times> 'e thrown option \<Rightarrow> ('s, 'e) bridge" where
  "settle outcome =
     (case outcome of
        (b, None) \<Rightarrow> b
      | (b, Some e) \<Rightarrow> controller_error e b)"

definition demand_begin ::
  "('s, 'e) reader \<Rightarrow> ReadableStreamFromReaderOptions \<Rightarrow> ('s, 'e) bridge
     \<Rightarrow> ('s, 'e) bridge \<times> byte list \<times> 'e read_result" where
  "demand_begin reader options b = pull_begin reader options (b\<lparr>state := Pulling\<rparr>)"

definition demand_end ::
  "('s, 'e) reader \<Rightarrow> ReadableStreamFromReaderOptions \<Rightarrow> byte list \<Rightarrow> 'e read_result
     \<Rightarrow> ('s, 'e) bridge \<Rightarrow> ('s, 'e) bridge" where
  "demand_end reader options chunk r b = settle (pull_resume reader options chunk r b)"

definition demand ::
  "('s, 'e) reader \<Rightarrow> ReadableStreamFromReaderOptions \<Rightarrow> ('s, 'e) bridge \<Rightarrow> ('s, 'e) bridge" where
  "demand reader options b =
     (if readable b then
        (case demand_begin reader options b of
           (b1, chunk, r) \<Rightarrow> demand_end reader options chunk r b1)
      else b)"

fun demands ::
  "nat \<Rightarrow> ('s, 'e) reader \<Rightarrow> ReadableStreamFromReaderOptions \<Rightarrow> ('s, 'e) bridge \<Rightarrow> ('s, 'e) bridge" where
  "demands 0 reader options b = b"
| "demands (Suc n) reader options b = demands n reader options (demand reader options b)"

definition cancel_stream ::
  "('s, 'e) reader \<Rightarrow> ReadableStreamFromReaderOptions \<Rightarrow> ('s, 'e) bridge
     \<Rightarrow> ('s, 'e) bridge \<times> 'e thrown option" where
  "cancel_stream reader options b =
     (if readable b then cancel reader options (b\<lparr>state := Closed\<rparr>) else (b, None))"

subsection \<open>A reader that follows a script\<close>

text \<open>
  A concrete reader for the closed instances below. Its state is the number of reads
  served. The \<open>s\<close>-th read copies the bytes of the \<open>s\<close>-th entry of the script to the
  front of the chunk and gives the entry's result; past the script every read is
  \<^verbatim>\<open>null\<close>. \<open>closing\<close> is \<open>None\<close> for a reader with no \<^verbatim>\<open>close\<close> method, \<open>Some None\<close> for
  a \<^verbatim>\<open>close\<close> that returns and \<open>Some (Some e)\<close> for a \<^verbatim>\<open>close\<close> that throws \<open>e\<close>.
\<close>

definition scripted_reader ::
  "(byte list \<times> 'e read_result) list \<Rightarrow> 'e option option \<Rightarrow> (nat, 'e) reader" where
  "scripted_reader script closing =
     \<lparr>read = (\<lambda>s chunk.
               if s < length script
               then (Suc s, fst (script ! s) @ drop (length (fst (script ! s))) chunk,
                     snd (script ! s))
               else (s, chunk, ReadNull)),
      close = map_option (\<lambda>thrown s. (s, thrown)) closing\<rparr>"

section \<open>Properties of the byte-level helpers\<close>

lemma skipLWSPChar_loop_filter:
  assumes "j \<le> i" and "length result = length u8"
  shows "(case skipLWSPChar_loop u8 i j result of (j', result') \<Rightarrow> take j' result')
         = take j result @ filter (\<lambda>b. b \<noteq> SPACE \<and> b \<noteq> HTAB) (drop i u8)"
  using assms
proof (induction u8 i j result rule: skipLWSPChar_loop.induct)
  case (1 u8 i j result)
  show ?case
  proof (cases "i < length u8")
    case False
    then show ?thesis
      by (subst skipLWSPChar_loop.simps) simp
  next
    case inb: True
    have dr: "drop i u8 = u8 ! i # drop (i + 1) u8"
      using inb by (simp add: Cons_nth_drop_Suc)
    show ?thesis
    proof (cases "u8 ! i = SPACE \<or> u8 ! i = HTAB")
      case True
      have "(case skipLWSPChar_loop u8 (i + 1) j result of (j', result') \<Rightarrow> take j' result')
            = take j result @ filter (\<lambda>b. b \<noteq> SPACE \<and> b \<noteq> HTAB) (drop (i + 1) u8)"
        using "1.IH"(1) [OF inb True] "1.prems" by simp
      then show ?thesis
        using inb True dr by (subst skipLWSPChar_loop.simps) auto
    next
      case False
      have jl: "j < length result"
        using "1.prems" inb by simp
      have "(case skipLWSPChar_loop u8 (i + 1) (j + 1) (result[j := u8 ! i]) of
               (j', result') \<Rightarrow> take j' result')
            = take (j + 1) (result[j := u8 ! i])
              @ filter (\<lambda>b. b \<noteq> SPACE \<and> b \<noteq> HTAB) (drop (i + 1) u8)"
        using "1.IH"(2) [OF inb False] "1.prems" by simp
      moreover have "take (j + 1) (result[j := u8 ! i]) = take j result @ [u8 ! i]"
        using jl by (simp add: take_Suc_conv_app_nth)
      ultimately show ?thesis
        using inb False dr by (subst skipLWSPChar_loop.simps) auto
    qed
  qed
qed

lemma skipLWSPChar_eq_filter:
  "skipLWSPChar u8 = filter (\<lambda>b. b \<noteq> SPACE \<and> b \<noteq> HTAB) u8"
  using skipLWSPChar_loop_filter [of 0 0 "replicate (length u8) 0" u8]
  by (simp add: skipLWSPChar_def)

lemma stripEol_drops_CRLF: "stripEol (xs @ [CR, LF]) = xs"
  by (simp add: stripEol_def nth_append)

lemma stripEol_fixed: "(stripEol xs = xs) = (xs = [] \<or> last xs \<noteq> LF)"
proof (cases "xs = []")
  case True
  then show ?thesis by (simp add: stripEol_def)
next
  case False
  then have l: "xs ! (length xs - 1) = last xs"
    by (simp add: last_conv_nth)
  have "length (take (length xs - d) xs) < length xs" if "d = 1 \<or> d = 2" for d :: nat
    using False that by auto
  then have "take (length xs - d) xs \<noteq> xs" if "d = 1 \<or> d = 2" for d :: nat
    using that by (metis less_irrefl)
  then show ?thesis
    using False l by (auto simp: stripEol_def Let_def)
qed

text \<open>
  Claim C8. For every input buffer, \<open>skipLWSPChar\<close> (\<open>stripLeadingBlanks\<close> in the spec)
  returns the input with every space (0x20) and horizontal-tab (0x09) byte removed from
  the whole buffer, the remaining bytes in their order; a buffer with no space or tab
  maps to an equal buffer, and a buffer of blanks only maps to the empty buffer.
\<close>

theorem skipLWSPChar_filters_blanks:
  "skipLWSPChar u8 = filter (\<lambda>b. b \<noteq> 0x20 \<and> b \<noteq> 0x09) u8
   \<and> (0x20 \<notin> set u8 \<and> 0x09 \<notin> set u8 \<longrightarrow> skipLWSPChar u8 = u8)
   \<and> (set u8 \<subseteq> {0x20, 0x09} \<longrightarrow> skipLWSPChar u8 = [])"
proof -
  have f: "skipLWSPChar u8 = filter (\<lambda>b. b \<noteq> 0x20 \<and> b \<noteq> 0x09) u8"
    using skipLWSPChar_eq_filter [of u8] by (simp add: SPACE_def HTAB_def)
  have keep: "0x20 \<notin> set u8 \<and> 0x09 \<notin> set u8 \<longrightarrow> skipLWSPChar u8 = u8"
  proof
    assume "0x20 \<notin> set u8 \<and> 0x09 \<notin> set u8"
    then have "\<forall>b \<in> set u8. b \<noteq> 0x20 \<and> b \<noteq> 0x09" by auto
    then show "skipLWSPChar u8 = u8" unfolding f by (simp add: filter_id_conv)
  qed
  have none: "set u8 \<subseteq> {0x20, 0x09} \<longrightarrow> skipLWSPChar u8 = []"
  proof
    assume "set u8 \<subseteq> {0x20, 0x09}"
    then have "\<forall>b \<in> set u8. \<not> (b \<noteq> 0x20 \<and> b \<noteq> 0x09)" by auto
    then show "skipLWSPChar u8 = []" unfolding f by (simp add: filter_empty_conv)
  qed
  show ?thesis using f keep none by blast
qed

theorem skipLWSPChar_filters_blanks_witness:
  "skipLWSPChar [0x20, 0x41, 0x09, 0x42, 0x20] = [0x41, 0x42]
   \<and> skipLWSPChar [0x41, 0x42] = [0x41, 0x42]
   \<and> skipLWSPChar [0x20, 0x09, 0x09] = []"
  using skipLWSPChar_filters_blanks [of "[0x20, 0x41, 0x09, 0x42, 0x20]"]
    skipLWSPChar_filters_blanks [of "[0x41, 0x42]"]
    skipLWSPChar_filters_blanks [of "[0x20, 0x09, 0x09]"]
  by simp

text \<open>
  The claim C9 as it is written fails on a buffer whose interior itself ends in a line
  feed: of \<^verbatim>\<open>"\n\r\n"\<close> the first application leaves \<^verbatim>\<open>"\n"\<close>, and the second strips
  that too.
\<close>

theorem stripEol_twice_counterexample:
  "stripEol [0x0A, 0x0D, 0x0A] = [0x0A]
   \<and> stripEol (stripEol [0x0A, 0x0D, 0x0A]) \<noteq> stripEol [0x0A, 0x0D, 0x0A]"
  by (simp add: stripEol_def LF_def CR_def)

text \<open>
  Claim C9, amended. For every buffer ending in carriage return (0x0D) then line feed
  (0x0A), one application of \<open>stripEol\<close> (\<open>stripLineEnding\<close> in the spec) removes exactly
  those two bytes and leaves the interior \<open>xs\<close> untouched; a second application returns
  its input unchanged exactly when the interior is empty or does not end in a line feed.
\<close>

theorem stripEol_CRLF_once:
  "stripEol (xs @ [0x0D, 0x0A]) = xs
   \<and> (stripEol (stripEol (xs @ [0x0D, 0x0A])) = stripEol (xs @ [0x0D, 0x0A]))
     = (xs = [] \<or> last xs \<noteq> 0x0A)"
proof -
  have once: "stripEol (xs @ [0x0D, 0x0A]) = xs"
    using stripEol_drops_CRLF [of xs] by (simp add: CR_def LF_def)
  have twice: "(stripEol (stripEol (xs @ [0x0D, 0x0A])) = stripEol (xs @ [0x0D, 0x0A]))
                = (xs = [] \<or> last xs \<noteq> 0x0A)"
    unfolding once using stripEol_fixed [of xs] by (simp add: LF_def)
  show ?thesis
    using once twice by blast
qed

theorem stripEol_CRLF_once_witness:
  "stripEol [0x41, 0x42, 0x0D, 0x0A] = [0x41, 0x42]
   \<and> stripEol (stripEol [0x41, 0x42, 0x0D, 0x0A]) = stripEol [0x41, 0x42, 0x0D, 0x0A]"
proof -
  have h: "[0x41, 0x42] = [] \<or> last [0x41, 0x42 :: byte] \<noteq> 0x0A"
    by simp
  have once: "stripEol ([0x41, 0x42] @ [0x0D, 0x0A]) = [0x41, 0x42]"
    using stripEol_CRLF_once [of "[0x41, 0x42]"] by blast
  have twice: "stripEol (stripEol ([0x41, 0x42] @ [0x0D, 0x0A])) = stripEol ([0x41, 0x42] @ [0x0D, 0x0A])"
    using stripEol_CRLF_once [of "[0x41, 0x42]"] h by blast
  show ?thesis
    using once twice by simp
qed

section \<open>Properties of \<open>resolvePath\<close>\<close>

lemma dotdot_here_UP_PATH: "dotdot_here s \<Longrightarrow> UP_PATH_REGEXP_test s"
  by (cases s) (simp_all add: UP_PATH_REGEXP_test_def)

lemma resolvePath_Some:
  "resolvePath ops root (Some p) =
     (if CHR 0x00 \<in> set p \<or> isAbsolute ops p then Inl (HttpError 400 (Some ''Malicious Path''))
      else if UP_PATH_REGEXP_test (normalize_path ops (''.'' @ sep ops @ p))
      then Inl (HttpError 403 None)
      else Inr (normalize_path ops (join ops root p)))"
  by (simp add: resolvePath_def createHttpError_def)

lemma resolvePath_None: "resolvePath ops root None = resolvePath ops ''.'' (Some root)"
  by (simp add: resolvePath_def)

lemma posix_join_empty: "posix_join root [] = posix_normalize root"
proof (cases "root = []")
  case True
  then show ?thesis by (simp add: posix_join_def posix_normalize_def)
next
  case False
  then show ?thesis by (simp add: posix_join_def)
qed

lemma posix_empty_checks:
  "\<not> isAbsolute posix []"
  "\<not> UP_PATH_REGEXP_test (normalize_path posix (''.'' @ sep posix @ []))"
proof -
  show "\<not> isAbsolute posix []"
    by (simp add: posix_def posix_isAbsolute_def)
  have "normalize_path posix (''.'' @ sep posix @ []) = ''./''"
    by (simp add: posix_def posix_normalize_def)
  then show "\<not> UP_PATH_REGEXP_test (normalize_path posix (''.'' @ sep posix @ []))"
    by (simp add: UP_PATH_REGEXP_test_def is_slash_def)
qed

text \<open>
  The claim C1 as it is written fails on a path that the two earlier checks reject: the
  normalized forms of \<^verbatim>\<open>"../\0"\<close> and of \<^verbatim>\<open>"/../x"\<close> (each after the prefix \<^verbatim>\<open>"./"\<close>) begin
  with a parent-directory segment, and \<open>resolvePath\<close> fails on both with the 400-class
  error, not with the 403-class one.
\<close>

theorem resolvePath_traversal_counterexample:
  "dotdot_here (normalize_path posix (''.'' @ sep posix @ [CHR ''.'', CHR ''.'', CHR ''/'', CHR 0x00]))
   \<and> resolvePath posix ''root'' (Some [CHR ''.'', CHR ''.'', CHR ''/'', CHR 0x00])
       = Inl (HttpError 400 (Some ''Malicious Path''))
   \<and> resolvePath posix ''root'' (Some [CHR ''.'', CHR ''.'', CHR ''/'', CHR 0x00])
       \<noteq> Inl (HttpError 403 None)
   \<and> dotdot_here (normalize_path posix (''.'' @ sep posix @ ''/../x''))
   \<and> resolvePath posix ''root'' (Some ''/../x'') = Inl (HttpError 400 (Some ''Malicious Path''))
   \<and> resolvePath posix ''root'' (Some ''/../x'') \<noteq> Inl (HttpError 403 None)"
  by (simp add: resolvePath_Some posix_def posix_normalize_def posix_isAbsolute_def is_slash_def)

text \<open>
  Claim C1, amended. For every relative path \<open>p\<close> that contains no NUL byte and is not
  absolute, if the normalized form of \<open>p\<close> (after prefixing with \<^verbatim>\<open>"."\<close> plus the separator)
  begins with a parent-directory segment, that is with \<^verbatim>\<open>..\<close> followed by a slash, a
  backslash or the end of the string, then \<open>resolvePath\<close> fails with the 403-class
  error. The check reads the normalized form and not the raw input: such a \<open>p\<close> is
  rejected with the 403-class error exactly when \<^verbatim>\<open>UP_PATH_REGEXP\<close> matches the
  normalized form.
\<close>

theorem resolvePath_traversal:
  assumes "CHR 0x00 \<notin> set p" and "\<not> isAbsolute ops p"
  shows "(dotdot_here (normalize_path ops (''.'' @ sep ops @ p))
            \<longrightarrow> resolvePath ops root (Some p) = Inl (HttpError 403 None))
         \<and> (resolvePath ops root (Some p) = Inl (HttpError 403 None))
            = UP_PATH_REGEXP_test (normalize_path ops (''.'' @ sep ops @ p))"
  using assms dotdot_here_UP_PATH [of "normalize_path ops (''.'' @ sep ops @ p)"]
  by (auto simp: resolvePath_Some)

text \<open>
  The three examples of the spec are rejected; \<^verbatim>\<open>"a/../b"\<close>, whose raw form (with the
  prefix) matches the expression while its normalized form \<^verbatim>\<open>"b"\<close> does not, is not.
\<close>

theorem resolvePath_traversal_witness:
  "resolvePath posix ''root'' (Some ''../secret'') = Inl (HttpError 403 None)
   \<and> resolvePath posix ''root'' (Some ''a/../../secret'') = Inl (HttpError 403 None)
   \<and> resolvePath posix ''root'' (Some ''a/b/../../../secret'') = Inl (HttpError 403 None)
   \<and> UP_PATH_REGEXP_test ''./a/../b''
   \<and> resolvePath posix ''root'' (Some ''a/../b'') \<noteq> Inl (HttpError 403 None)"
proof -
  have n: "normalize_path posix (''.'' @ sep posix @ ''../secret'') = ''../secret''"
     "normalize_path posix (''.'' @ sep posix @ ''a/../../secret'') = ''../secret''"
     "normalize_path posix (''.'' @ sep posix @ ''a/b/../../../secret'') = ''../secret''"
     "normalize_path posix (''.'' @ sep posix @ ''a/../b'') = ''b''"
    by (simp_all add: posix_def posix_normalize_def)
  have a: "\<not> isAbsolute posix ''../secret''" "\<not> isAbsolute posix ''a/../../secret''"
     "\<not> isAbsolute posix ''a/b/../../../secret''" "\<not> isAbsolute posix ''a/../b''"
    by (simp_all add: posix_def posix_isAbsolute_def)
  have 1: "resolvePath posix ''root'' (Some ''../secret'') = Inl (HttpError 403 None)"
    using resolvePath_traversal [of "''../secret''" posix "''root''"] a n
    by (simp add: is_slash_def)
  have 2: "resolvePath posix ''root'' (Some ''a/../../secret'') = Inl (HttpError 403 None)"
    using resolvePath_traversal [of "''a/../../secret''" posix "''root''"] a n
    by (simp add: is_slash_def)
  have 3: "resolvePath posix ''root'' (Some ''a/b/../../../secret'') = Inl (HttpError 403 None)"
    using resolvePath_traversal [of "''a/b/../../../secret''" posix "''root''"] a n
    by (simp add: is_slash_def)
  have 4: "UP_PATH_REGEXP_test ''./a/../b''"
    by (simp add: UP_PATH_REGEXP_test_def is_slash_def)
  have 5: "resolvePath posix ''root'' (Some ''a/../b'') \<noteq> Inl (HttpError 403 None)"
    using resolvePath_traversal [of "''a/../b''" posix "''root''"] a n
    by (simp add: UP_PATH_REGEXP_test_def is_slash_def)
  show ?thesis by (intro conjI) (fact 1 2 3 4 5)+
qed

text \<open>
  The claim C2 as it is written fails twice. The message of the 400-class error is
  \<^verbatim>\<open>"Malicious Path"\<close>, not \<^verbatim>\<open>"Malformed Path"\<close>. And a missing relative path is not
  rejected: the only argument is then the path, resolved against the root \<^verbatim>\<open>"."\<close>, and
  it fails only if it contains a NUL byte or is absolute itself.
\<close>

theorem resolvePath_malformed_counterexample:
  "resolvePath posix ''root'' (Some [CHR ''a'', CHR 0x00]) = Inl (HttpError 400 (Some ''Malicious Path''))
   \<and> resolvePath posix ''root'' (Some [CHR ''a'', CHR 0x00]) \<noteq> Inl (HttpError 400 (Some ''Malformed Path''))
   \<and> resolvePath posix ''x'' None = Inr ''x''"
  by (simp add: resolvePath_Some resolvePath_None posix_def posix_normalize_def posix_join_def
      posix_isAbsolute_def is_slash_def UP_PATH_REGEXP_test_def)

text \<open>
  Claim C2, amended. \<open>resolvePath\<close> raises the 400-class error with the message
  \<^verbatim>\<open>"Malicious Path"\<close> exactly when the relative path (the only argument, when the relative
  path is omitted) contains a NUL byte anywhere or is absolute in host path syntax, for
  every root; a 400-class error carries no other message, and on arguments of the
  declared types the \<^verbatim>\<open>TypeError\<close> of the \<^verbatim>\<open>path == null\<close> test is never raised.
\<close>

theorem resolvePath_malicious:
  "(resolvePath ops root rel = Inl (HttpError 400 (Some ''Malicious Path'')))
     = (CHR 0x00 \<in> set (case rel of None \<Rightarrow> root | Some p \<Rightarrow> p)
        \<or> isAbsolute ops (case rel of None \<Rightarrow> root | Some p \<Rightarrow> p))
   \<and> (\<forall>m. resolvePath ops root rel = Inl (HttpError 400 m) \<longrightarrow> m = Some ''Malicious Path'')
   \<and> (\<forall>t. resolvePath ops root rel \<noteq> Inl (TypeError t))"
  by (cases rel) (auto simp: resolvePath_Some resolvePath_None)

theorem resolvePath_malicious_witness:
  "resolvePath posix ''root'' (Some [CHR ''a'', CHR 0x00, CHR ''b'']) = Inl (HttpError 400 (Some ''Malicious Path''))
   \<and> resolvePath posix [CHR 0x00] (Some ''/etc/passwd'') = Inl (HttpError 400 (Some ''Malicious Path''))
   \<and> resolvePath posix ''root'' (Some ''a/b'') \<noteq> Inl (HttpError 400 (Some ''Malicious Path''))
   \<and> resolvePath posix ''/etc/passwd'' None = Inl (HttpError 400 (Some ''Malicious Path''))"
proof -
  have 1: "resolvePath posix ''root'' (Some [CHR ''a'', CHR 0x00, CHR ''b''])
            = Inl (HttpError 400 (Some ''Malicious Path''))"
    using resolvePath_malicious [of posix "''root''" "Some [CHR ''a'', CHR 0x00, CHR ''b'']", THEN conjunct1]
    by simp
  have "isAbsolute posix ''/etc/passwd''"
    by (simp add: posix_def posix_isAbsolute_def)
  then have 2: "resolvePath posix [CHR 0x00] (Some ''/etc/passwd'')
                 = Inl (HttpError 400 (Some ''Malicious Path''))"
    and 4: "resolvePath posix ''/etc/passwd'' None = Inl (HttpError 400 (Some ''Malicious Path''))"
    using resolvePath_malicious [of posix "[CHR 0x00]" "Some ''/etc/passwd''", THEN conjunct1]
      resolvePath_malicious [of posix "''/etc/passwd''" None, THEN conjunct1]
    by simp_all
  have "\<not> isAbsolute posix ''a/b''"
    by (simp add: posix_def posix_isAbsolute_def)
  then have 3: "resolvePath posix ''root'' (Some ''a/b'') \<noteq> Inl (HttpError 400 (Some ''Malicious Path''))"
    using resolvePath_malicious [of posix "''root''" "Some ''a/b''", THEN conjunct1]
    by simp
  show ?thesis by (intro conjI) (fact 1 2 3 4)+
qed

text \<open>
  Claim C3. For every relative path \<open>p\<close> that passes the NUL, absoluteness and traversal
  checks, \<open>resolvePath root p\<close> returns the normalization of the join of the original
  root and \<open>p\<close>. On a POSIX host the empty relative path passes the checks for every
  root and resolves to the root, normalized by \<^verbatim>\<open>join\<close> and by the final \<^verbatim>\<open>normalize\<close>:
  to the root itself when the root is in normal form.
\<close>

theorem resolvePath_inside_root:
  "(CHR 0x00 \<notin> set p \<and> \<not> isAbsolute ops p
      \<and> \<not> UP_PATH_REGEXP_test (normalize_path ops (''.'' @ sep ops @ p))
     \<longrightarrow> resolvePath ops root (Some p) = Inr (normalize_path ops (join ops root p)))
   \<and> resolvePath posix root (Some []) = Inr (posix_normalize (posix_normalize root))
   \<and> (posix_normalize root = root \<longrightarrow> resolvePath posix root (Some []) = Inr root)"
proof -
  have g: "CHR 0x00 \<notin> set p \<and> \<not> isAbsolute ops p
      \<and> \<not> UP_PATH_REGEXP_test (normalize_path ops (''.'' @ sep ops @ p))
     \<longrightarrow> resolvePath ops root (Some p) = Inr (normalize_path ops (join ops root p))"
    by (simp add: resolvePath_Some)
  have "resolvePath posix root (Some []) = Inr (normalize_path posix (join posix root []))"
    using posix_empty_checks by (simp only: resolvePath_Some) simp
  moreover have "normalize_path posix (join posix root []) = posix_normalize (posix_normalize root)"
    by (simp add: posix_def posix_join_empty)
  ultimately have e: "resolvePath posix root (Some []) = Inr (posix_normalize (posix_normalize root))"
    by simp
  then have r: "posix_normalize root = root \<longrightarrow> resolvePath posix root (Some []) = Inr root"
    by simp
  show ?thesis
    by (intro conjI) (fact g e r)+
qed

theorem resolvePath_inside_root_witness:
  "resolvePath posix ''root'' (Some ''a/./b'') = Inr ''root/a/b''
   \<and> resolvePath posix ''root'' (Some ''a//b'') = Inr ''root/a/b''
   \<and> posix_normalize (posix_join ''root'' ''a//b'') = ''root/a/b''
   \<and> resolvePath posix ''root'' (Some []) = Inr ''root''"
proof -
  have 1: "resolvePath posix ''root'' (Some ''a/./b'') = Inr ''root/a/b''"
    using resolvePath_inside_root [of "''a/./b''" posix "''root''"]
    by (simp add: posix_def posix_isAbsolute_def posix_normalize_def posix_join_def
        UP_PATH_REGEXP_test_def is_slash_def)
  have 2: "resolvePath posix ''root'' (Some ''a//b'') = Inr ''root/a/b''"
    using resolvePath_inside_root [of "''a//b''" posix "''root''"]
    by (simp add: posix_def posix_isAbsolute_def posix_normalize_def posix_join_def
        UP_PATH_REGEXP_test_def is_slash_def)
  have 3: "posix_normalize (posix_join ''root'' ''a//b'') = ''root/a/b''"
    by (simp add: posix_normalize_def posix_join_def)
  have n: "posix_normalize ''root'' = ''root''"
    by (simp add: posix_normalize_def)
  have 4: "resolvePath posix ''root'' (Some []) = Inr ''root''"
    using resolvePath_inside_root [of "[]" posix "''root''"] n by simp
  show ?thesis by (intro conjI) (fact 1 2 3 4)+
qed

text \<open>
  Claim C10. The NUL, absoluteness and traversal checks of \<open>resolvePath\<close> read the
  relative path only and never the root. A rejection of \<open>p\<close> under one root is the same
  rejection under every root; and if \<open>p\<close> is accepted under one root, or passes the three
  checks, then under every root \<open>root2\<close>, whatever it contains, \<open>resolvePath\<close> succeeds
  with the normalization of the join of \<open>root2\<close> and \<open>p\<close>.
\<close>

theorem resolvePath_root_unchecked:
  "(resolvePath ops root1 (Some p) = Inl e \<longrightarrow> resolvePath ops root2 (Some p) = Inl e)
   \<and> (resolvePath ops root1 (Some p) = Inr r
        \<longrightarrow> resolvePath ops root2 (Some p) = Inr (normalize_path ops (join ops root2 p)))
   \<and> (CHR 0x00 \<notin> set p \<and> \<not> isAbsolute ops p
        \<and> \<not> UP_PATH_REGEXP_test (normalize_path ops (''.'' @ sep ops @ p))
        \<longrightarrow> resolvePath ops root2 (Some p) = Inr (normalize_path ops (join ops root2 p)))"
  by (simp add: resolvePath_Some)

text \<open>
  A root with an absolute prefix, a parent-directory segment and a NUL byte, and a root
  of parent-directory segments only, are both accepted; a rejection does not depend on
  the root either.
\<close>

theorem resolvePath_root_unchecked_witness:
  "resolvePath posix [CHR ''/'', CHR ''.'', CHR ''.'', CHR ''/'', CHR 0x00, CHR ''x''] (Some ''a/b'')
     = Inr [CHR ''/'', CHR 0x00, CHR ''x'', CHR ''/'', CHR ''a'', CHR ''/'', CHR ''b'']
   \<and> resolvePath posix ''../..'' (Some ''a/b'') = Inr ''../../a/b''
   \<and> resolvePath posix [CHR 0x00] (Some ''../b'') = Inl (HttpError 403 None)"
proof -
  have ok: "resolvePath posix ''root'' (Some ''a/b'') = Inr ''root/a/b''"
    by (simp add: resolvePath_Some posix_def posix_isAbsolute_def posix_normalize_def posix_join_def
        UP_PATH_REGEXP_test_def is_slash_def)
  have bad: "resolvePath posix ''root'' (Some ''../b'') = Inl (HttpError 403 None)"
    by (simp add: resolvePath_Some posix_def posix_isAbsolute_def posix_normalize_def
        UP_PATH_REGEXP_test_def is_slash_def)
  have 1: "resolvePath posix [CHR ''/'', CHR ''.'', CHR ''.'', CHR ''/'', CHR 0x00, CHR ''x''] (Some ''a/b'')
     = Inr [CHR ''/'', CHR 0x00, CHR ''x'', CHR ''/'', CHR ''a'', CHR ''/'', CHR ''b'']"
    using resolvePath_root_unchecked
      [of posix "''root''" "''a/b''" _ "[CHR ''/'', CHR ''.'', CHR ''.'', CHR ''/'', CHR 0x00, CHR ''x'']" "''root/a/b''",
       THEN conjunct2, THEN conjunct1] ok
    by (simp add: posix_def posix_normalize_def posix_join_def)
  have 2: "resolvePath posix ''../..'' (Some ''a/b'') = Inr ''../../a/b''"
    using resolvePath_root_unchecked
      [of posix "''root''" "''a/b''" _ "''../..''" "''root/a/b''", THEN conjunct2, THEN conjunct1] ok
    by (simp add: posix_def posix_normalize_def posix_join_def)
  have 3: "resolvePath posix [CHR 0x00] (Some ''../b'') = Inl (HttpError 403 None)"
    using resolvePath_root_unchecked
      [of posix "''root''" "''../b''" "HttpError 403 None" "[CHR 0x00]", THEN conjunct1] bad
    by simp
  show ?thesis by (intro conjI) (fact 1 2 3)+
qed

section \<open>Properties of the bridge\<close>

lemma demands_settled: "\<not> readable b \<Longrightarrow> demands k reader options b = b"
  by (induction k) (simp_all add: demand_def)

lemma demand_readable:
  "readable b \<Longrightarrow> demand reader options b = settle (pull reader options (b\<lparr>state := Pulling\<rparr>))"
  by (simp add: demand_def demand_begin_def demand_end_def pull_def split: prod.splits)

lemma readable_simps [simp]:
  "readable (b\<lparr>state := Pulling\<rparr>)" "readable (b\<lparr>state := Idle\<rparr>)"
  "\<not> readable (b\<lparr>state := Closed\<rparr>)" "\<not> readable (b\<lparr>state := Errored\<rparr>)"
  "readable (b\<lparr>source := s\<rparr>) = readable b" "readable (b\<lparr>trace := t\<rparr>) = readable b"
  "readable (new_bridge s0)"
  by (simp_all add: readable_def new_bridge_def)

lemma settle_settled: "\<not> readable b \<Longrightarrow> settle (b, r) = b"
  by (cases r) (simp_all add: settle_def controller_error_def)

lemma settle_None: "settle (b, None) = b"
  by (simp add: settle_def)

lemma pull_ReadCount:
  assumes "read reader (source b) (replicate (chunkSize_of options) 0) = (s', chunk', ReadCount n)"
      and "subarray0 chunk' n \<noteq> []" and "readable b"
  shows "pull reader options b
         = (b\<lparr>source := s', trace := trace b @ [ControllerEnqueue (subarray0 chunk' n)]\<rparr>, None)"
  using assms by (simp add: pull_def pull_begin_def pull_resume_def controller_enqueue_def)

lemma pull_ReadCount_empty:
  assumes "read reader (source b) (replicate (chunkSize_of options) 0) = (s', chunk', ReadCount n)"
      and "subarray0 chunk' n = []" and "readable b"
  shows "pull reader options b =
     (case close reader of
        None \<Rightarrow> (b\<lparr>source := s', state := Errored,
                    trace := trace b @ [ControllerError ControllerTypeError]\<rparr>, None)
      | Some c \<Rightarrow> (b\<lparr>source := fst (c s'), state := Errored,
                     trace := trace b @ [ControllerError ControllerTypeError, ReaderClose]\<rparr>,
                    map_option Thrown (snd (c s'))))"
  using assms
  by (simp add: pull_def pull_begin_def pull_resume_def controller_enqueue_def pull_catch_def
      controller_error_def reader_close_def isCloser_def split: option.splits prod.splits)

lemma pull_ReadThrow:
  assumes "read reader (source b) (replicate (chunkSize_of options) 0) = (s', chunk', ReadThrow e)"
      and "readable b"
  shows "pull reader options b =
     (case close reader of
        None \<Rightarrow> (b\<lparr>source := s', state := Errored,
                    trace := trace b @ [ControllerError (Thrown e)]\<rparr>, None)
      | Some c \<Rightarrow> (b\<lparr>source := fst (c s'), state := Errored,
                     trace := trace b @ [ControllerError (Thrown e), ReaderClose]\<rparr>,
                    map_option Thrown (snd (c s'))))"
  using assms
  by (simp add: pull_def pull_begin_def pull_resume_def pull_catch_def
      controller_error_def reader_close_def isCloser_def split: option.splits prod.splits)

lemma pull_ReadNull:
  assumes "read reader (source b) (replicate (chunkSize_of options) 0) = (s', chunk', ReadNull)"
      and "readable b"
  shows "pull reader options b =
     (case close reader of
        None \<Rightarrow> (b\<lparr>source := s', state := Closed, trace := trace b @ [ControllerClose]\<rparr>, None)
      | Some c \<Rightarrow>
          if autoClose_of options then
            (case snd (c s') of
               None \<Rightarrow> (b\<lparr>source := fst (c s'), state := Closed,
                            trace := trace b @ [ReaderClose, ControllerClose]\<rparr>, None)
             | Some e \<Rightarrow> (b\<lparr>source := fst (c (fst (c s'))), state := Errored,
                            trace := trace b @ [ReaderClose, ControllerError (Thrown e), ReaderClose]\<rparr>,
                           map_option Thrown (snd (c (fst (c s'))))))
          else (b\<lparr>source := s', state := Closed, trace := trace b @ [ControllerClose]\<rparr>, None))"
  using assms
  by (auto simp: pull_def pull_begin_def pull_resume_def pull_catch_def controller_error_def
      controller_close_def reader_close_def isCloser_def split: option.splits prod.splits)

lemma pull_resume_not_readable:
  assumes "close reader = Some c" and "autoClose_of options" and "\<not> readable b"
  shows "trace (settle (pull_resume reader options chunk r b))
           = trace b @ (if r = ReadNull then [ReaderClose, ReaderClose] else [ReaderClose])"
    and "state (settle (pull_resume reader options chunk r b)) = state b"
  using assms
  by (cases r; auto simp: pull_resume_def pull_catch_def controller_error_def controller_close_def
      controller_enqueue_def reader_close_def isCloser_def settle_def readable_def
      split: option.splits prod.splits)+

lemma scripted_read:
  "s < length script \<Longrightarrow>
   read (scripted_reader script closing) s chunk
   = (Suc s, fst (script ! s) @ drop (length (fst (script ! s))) chunk, snd (script ! s))"
  "\<not> s < length script \<Longrightarrow> read (scripted_reader script closing) s chunk = (s, chunk, ReadNull)"
  by (simp_all add: scripted_reader_def)

lemma scripted_close:
  "close (scripted_reader script None) = None"
  "close (scripted_reader script (Some thrown)) = Some (\<lambda>s. (s, thrown))"
  by (simp_all add: scripted_reader_def)

lemmas bridge_eval =
  demand_def demand_begin_def demand_end_def settle_def new_bridge_def readable_def
  pull_begin_def pull_resume_def pull_catch_def cancel_def cancel_stream_def
  scripted_read scripted_close isCloser_def reader_close_def controller_enqueue_def
  controller_close_def controller_error_def subarray0_def chunkSize_of_def autoClose_of_def

text \<open>
  Claim C4. For every source whose second read fails, the bridge produces one enqueue
  event for the first successful read, then one error signal carrying the original
  failure, then exactly one close attempt on the source if it is closable, whatever
  \<open>autoClose\<close> is, and a failure of that close call is not raised over the error already
  reported. The code does not do this when the first read succeeds with a count of
  zero: the empty chunk is refused by the controller of the byte stream, the \<^verbatim>\<open>catch\<close>
  block signals that \<^verbatim>\<open>TypeError\<close> and closes the reader, and the second read is never
  issued. There is no enqueue event, and the error signalled is not a failure of the
  source.
\<close>

theorem zero_first_read_errors_stream:
  "demands 2 (scripted_reader [([], ReadCount 0), ([], ReadThrow ''read failed'')] (Some None))
     \<lparr>autoClose = None, chunkSize = Some 4\<rparr> (new_bridge 0)
   = \<lparr>source = 1, state = Errored, trace = [ControllerError ControllerTypeError, ReaderClose]\<rparr>"
  by (simp add: numeral_2_eq_2 bridge_eval)

text \<open>
  Away from empty reads the bridge handles a failing second read as described. For
  every source whose first read fills a non-empty prefix and whose second read fails
  with \<open>e\<close>, the bridge produces one enqueue event for the first read, then one error
  signal carrying \<open>e\<close> unmodified, then exactly one close call on the source if it is
  closable, whatever \<open>autoClose\<close> is, and nothing more however many demand signals
  follow. What that close call throws rejects the pull and is discarded by the stream,
  which is errored already: the result does not depend on it.
\<close>

theorem second_read_fails:
  assumes r1: "read reader s0 (replicate (chunkSize_of options) 0) = (s1, chunk1, ReadCount n)"
      and ne: "subarray0 chunk1 n \<noteq> []"
      and r2: "read reader s1 (replicate (chunkSize_of options) 0) = (s2, chunk2, ReadThrow e)"
  shows "demands (Suc (Suc k)) reader options (new_bridge s0) =
     (case close reader of
        None \<Rightarrow>
          \<lparr>source = s2, state = Errored,
           trace = [ControllerEnqueue (subarray0 chunk1 n), ControllerError (Thrown e)]\<rparr>
      | Some c \<Rightarrow>
          \<lparr>source = fst (c s2), state = Errored,
           trace = [ControllerEnqueue (subarray0 chunk1 n), ControllerError (Thrown e), ReaderClose]\<rparr>)"
proof -
  let ?b1 = "\<lparr>source = s1, state = Pulling, trace = [ControllerEnqueue (subarray0 chunk1 n)]\<rparr>
             :: ('a, 'b) bridge"
  let ?b2 = "(case close reader of
        None \<Rightarrow>
          \<lparr>source = s2, state = Errored,
           trace = [ControllerEnqueue (subarray0 chunk1 n), ControllerError (Thrown e)]\<rparr>
      | Some c \<Rightarrow>
          \<lparr>source = fst (c s2), state = Errored,
           trace = [ControllerEnqueue (subarray0 chunk1 n), ControllerError (Thrown e), ReaderClose]\<rparr>)
      :: ('a, 'b) bridge"
  have d1: "demand reader options (new_bridge s0) = ?b1"
    using pull_ReadCount [of reader "\<lparr>source = s0, state = Pulling, trace = []\<rparr>" options s1 chunk1 n]
      r1 ne
    by (simp add: demand_readable settle_None new_bridge_def readable_def)
  have nr: "\<not> readable ?b2"
    by (simp add: readable_def split: option.splits)
  have "\<exists>rej. pull reader options ?b1 = (?b2, rej)"
    using pull_ReadThrow [of reader ?b1 options s2 chunk2 e] r2
    by (simp add: readable_def split: option.splits)
  then obtain rej where "pull reader options ?b1 = (?b2, rej)" ..
  then have d2: "demand reader options ?b1 = ?b2"
    using settle_settled [OF nr, of rej]
    by (simp add: demand_readable readable_def)
  show ?thesis
    using d1 d2 demands_settled [OF nr] by simp
qed

theorem second_read_fails_witness:
  "demands 5 (scripted_reader [([1, 2, 3], ReadCount 3), ([], ReadThrow ''read failed'')]
               (Some (Some ''close failed''))) \<lparr>autoClose = Some False, chunkSize = Some 4\<rparr>
     (new_bridge 0)
   = \<lparr>source = 2, state = Errored,
      trace = [ControllerEnqueue [1, 2, 3], ControllerError (Thrown ''read failed''), ReaderClose]\<rparr>"
proof -
  let ?rd = "scripted_reader [([1, 2, 3], ReadCount 3), ([], ReadThrow ''read failed'')]
               (Some (Some ''close failed'')) :: (nat, string) reader"
  let ?op = "\<lparr>autoClose = Some False, chunkSize = Some 4\<rparr>"
  have r1: "read ?rd 0 (replicate (chunkSize_of ?op) 0) = (1, [1, 2, 3, 0], ReadCount 3)"
    by (simp add: scripted_read chunkSize_of_def)
  have ne: "subarray0 [1, 2, 3, 0 :: byte] 3 \<noteq> []"
    by (simp add: subarray0_def)
  have r2: "read ?rd 1 (replicate (chunkSize_of ?op) 0) = (2, replicate 4 0, ReadThrow ''read failed'')"
    by (simp add: scripted_read chunkSize_of_def)
  have five: "(5 :: nat) = Suc (Suc 3)"
    by simp
  show ?thesis
    unfolding five
    using second_read_fails [OF r1 ne r2, of 3]
    by (simp add: scripted_close subarray0_def)
qed

text \<open>
  The claim C5 as it is written fails for a source whose \<^verbatim>\<open>close\<close> throws: the throw of
  the end-of-data branch is caught by the \<^verbatim>\<open>catch\<close> block, which signals it as an error
  (there is no end signal) and calls \<^verbatim>\<open>close\<close> a second time.
\<close>

theorem close_failure_at_end_counterexample:
  "demands 3 (scripted_reader [([1, 2], ReadCount 2), ([3], ReadCount 1), ([], ReadNull)]
               (Some (Some ''close failed''))) \<lparr>autoClose = Some True, chunkSize = Some 4\<rparr>
     (new_bridge 0)
   = \<lparr>source = 3, state = Errored,
      trace = [ControllerEnqueue [1, 2], ControllerEnqueue [3], ReaderClose,
               ControllerError (Thrown ''close failed''), ReaderClose]\<rparr>"
  by (simp add: numeral_3_eq_3 bridge_eval)

text \<open>
  Claim C5, amended. For every source that yields a first non-empty buffer, then a
  second non-empty buffer, then the end-of-data sentinel, and whose \<^verbatim>\<open>close\<close>, where the
  bridge calls it, does not throw: the bridge produces exactly two enqueue events with
  the filled prefixes of the two buffers in that order, then, when \<open>autoClose\<close> is true
  and the source is closable, exactly one close call on the source, then exactly one
  end-of-stream signal; further demand signals cause no pull (the result is the same
  for every number \<open>3 + k\<close> of demand signals).
\<close>

theorem two_reads_then_end:
  assumes r1: "read reader s0 (replicate (chunkSize_of options) 0) = (s1, chunk1, ReadCount n1)"
      and ne1: "subarray0 chunk1 n1 \<noteq> []"
      and r2: "read reader s1 (replicate (chunkSize_of options) 0) = (s2, chunk2, ReadCount n2)"
      and ne2: "subarray0 chunk2 n2 \<noteq> []"
      and r3: "read reader s2 (replicate (chunkSize_of options) 0) = (s3, chunk3, ReadNull)"
      and quiet: "\<forall>c. close reader = Some c \<and> autoClose_of options \<longrightarrow> snd (c s3) = None"
  shows "demands (Suc (Suc (Suc k))) reader options (new_bridge s0) =
     (case close reader of
        None \<Rightarrow>
          \<lparr>source = s3, state = Closed,
           trace = [ControllerEnqueue (subarray0 chunk1 n1), ControllerEnqueue (subarray0 chunk2 n2),
                    ControllerClose]\<rparr>
      | Some c \<Rightarrow>
          if autoClose_of options then
            \<lparr>source = fst (c s3), state = Closed,
             trace = [ControllerEnqueue (subarray0 chunk1 n1), ControllerEnqueue (subarray0 chunk2 n2),
                      ReaderClose, ControllerClose]\<rparr>
          else
            \<lparr>source = s3, state = Closed,
             trace = [ControllerEnqueue (subarray0 chunk1 n1), ControllerEnqueue (subarray0 chunk2 n2),
                      ControllerClose]\<rparr>)"
proof -
  let ?b1 = "\<lparr>source = s1, state = Pulling, trace = [ControllerEnqueue (subarray0 chunk1 n1)]\<rparr>
             :: ('a, 'b) bridge"
  let ?b2 = "\<lparr>source = s2, state = Pulling,
              trace = [ControllerEnqueue (subarray0 chunk1 n1), ControllerEnqueue (subarray0 chunk2 n2)]\<rparr>
             :: ('a, 'b) bridge"
  let ?b3 = "(case close reader of
        None \<Rightarrow>
          \<lparr>source = s3, state = Closed,
           trace = [ControllerEnqueue (subarray0 chunk1 n1), ControllerEnqueue (subarray0 chunk2 n2),
                    ControllerClose]\<rparr>
      | Some c \<Rightarrow>
          if autoClose_of options then
            \<lparr>source = fst (c s3), state = Closed,
             trace = [ControllerEnqueue (subarray0 chunk1 n1), ControllerEnqueue (subarray0 chunk2 n2),
                      ReaderClose, ControllerClose]\<rparr>
          else
            \<lparr>source = s3, state = Closed,
             trace = [ControllerEnqueue (subarray0 chunk1 n1), ControllerEnqueue (subarray0 chunk2 n2),
                      ControllerClose]\<rparr>) :: ('a, 'b) bridge"
  have d1: "demand reader options (new_bridge s0) = ?b1"
    using pull_ReadCount [of reader "\<lparr>source = s0, state = Pulling, trace = []\<rparr>" options s1 chunk1 n1]
      r1 ne1
    by (simp add: demand_readable settle_None new_bridge_def readable_def)
  have d2: "demand reader options ?b1 = ?b2"
    using pull_ReadCount [of reader ?b1 options s2 chunk2 n2] r2 ne2
    by (simp add: demand_readable settle_None readable_def)
  have nr: "\<not> readable ?b3"
    by (simp add: readable_def split: option.splits)
  have p3: "pull reader options ?b2 = (?b3, None)"
  proof (cases "close reader")
    case None
    then show ?thesis
      using pull_ReadNull [of reader ?b2 options s3 chunk3] r3 by (simp add: readable_def)
  next
    case (Some c)
    show ?thesis
    proof (cases "autoClose_of options")
      case True
      then have "snd (c s3) = None"
        using quiet Some by simp
      then show ?thesis
        using Some True pull_ReadNull [of reader ?b2 options s3 chunk3] r3 by (simp add: readable_def)
    next
      case False
      then show ?thesis
        using Some pull_ReadNull [of reader ?b2 options s3 chunk3] r3 by (simp add: readable_def)
    qed
  qed
  have d3: "demand reader options ?b2 = ?b3"
    using p3 by (simp add: demand_readable settle_None readable_def)
  show ?thesis
    using d1 d2 d3 demands_settled [OF nr] by simp
qed

theorem two_reads_then_end_witness:
  "demands 7 (scripted_reader [([1, 2], ReadCount 2), ([3], ReadCount 1), ([], ReadNull)]
               (Some None)) \<lparr>autoClose = None, chunkSize = Some 4\<rparr> (new_bridge 0)
   = (\<lparr>source = 3, state = Closed,
       trace = [ControllerEnqueue [1, 2], ControllerEnqueue [3], ReaderClose, ControllerClose]\<rparr>
      :: (nat, string) bridge)"
proof -
  let ?rd = "scripted_reader [([1, 2], ReadCount 2), ([3], ReadCount 1), ([], ReadNull)] (Some None)
             :: (nat, string) reader"
  let ?op = "\<lparr>autoClose = None, chunkSize = Some 4\<rparr>"
  have r1: "read ?rd 0 (replicate (chunkSize_of ?op) 0) = (1, [1, 2, 0, 0], ReadCount 2)"
    by (simp add: scripted_read chunkSize_of_def numeral_2_eq_2)
  have ne1: "subarray0 [1, 2, 0, 0 :: byte] 2 \<noteq> []"
    by (simp add: subarray0_def)
  have r2: "read ?rd 1 (replicate (chunkSize_of ?op) 0) = (2, [3, 0, 0, 0], ReadCount 1)"
    by (simp add: scripted_read chunkSize_of_def numeral_3_eq_3)
  have ne2: "subarray0 [3, 0, 0, 0 :: byte] 1 \<noteq> []"
    by (simp add: subarray0_def)
  have r3: "read ?rd 2 (replicate (chunkSize_of ?op) 0) = (3, replicate 4 0, ReadNull)"
    by (simp add: scripted_read chunkSize_of_def)
  have quiet: "\<forall>c. close ?rd = Some c \<and> autoClose_of ?op \<longrightarrow> snd (c 3) = None"
    by (auto simp: scripted_close)
  have seven: "(7 :: nat) = Suc (Suc (Suc 4))"
    by simp
  show ?thesis
    unfolding seven
    using two_reads_then_end [OF r1 ne1 r2 ne2 r3 quiet, of 4]
    by (simp add: scripted_close subarray0_def autoClose_of_def)
qed

text \<open>
  Claim C6. For every pull in which the source returns a read count of zero, the bridge
  enqueues an empty chunk to the consumer and stays in the pulling state; a zero-byte
  read is not treated as end of data and does not close or error the stream. The code
  tests only \<^verbatim>\<open>read === null\<close> and hands \<^verbatim>\<open>chunk.subarray(0, 0)\<close> to
  \<^verbatim>\<open>controller.enqueue\<close>, but the stream is built with \<^verbatim>\<open>type: "bytes"\<close> and its controller
  refuses an empty chunk: the \<^verbatim>\<open>TypeError\<close> lands in the \<^verbatim>\<open>catch\<close> block, which errors the
  stream and closes the reader. Nothing is enqueued.
\<close>

theorem zero_read_errors_stream:
  "demand (scripted_reader [([], ReadCount 0), ([7], ReadCount 1)] (Some None))
     \<lparr>autoClose = None, chunkSize = Some 4\<rparr> (new_bridge 0)
   = \<lparr>source = 1, state = Errored, trace = [ControllerError ControllerTypeError, ReaderClose]\<rparr>"
  by (simp add: bridge_eval)

text \<open>
  The claim C7 as it is written fails when a pull has been issued and its read is still
  in flight: \<^verbatim>\<open>cancel\<close> closes the reader at once, and the pull, resumed when the read
  settles on a stream that is closed by then, has its \<^verbatim>\<open>enqueue\<close> refused and closes the
  reader again in the \<^verbatim>\<open>catch\<close> block. The three steps are the issue of the pull, the
  cancellation and the resumption.
\<close>

theorem cancel_in_flight_counterexample:
  "demand_begin (scripted_reader [([1, 2], ReadCount 2)] (Some None))
     \<lparr>autoClose = None, chunkSize = Some 4\<rparr> (new_bridge 0)
   = (\<lparr>source = 1, state = Pulling, trace = []\<rparr> :: (nat, string) bridge, [1, 2, 0, 0], ReadCount 2)
   \<and> cancel_stream (scripted_reader [([1, 2], ReadCount 2)] (Some None))
       \<lparr>autoClose = None, chunkSize = Some 4\<rparr> \<lparr>source = 1, state = Pulling, trace = []\<rparr>
     = (\<lparr>source = 1, state = Closed, trace = [ReaderClose]\<rparr> :: (nat, string) bridge, None)
   \<and> demand_end (scripted_reader [([1, 2], ReadCount 2)] (Some None))
       \<lparr>autoClose = None, chunkSize = Some 4\<rparr> [1, 2, 0, 0] (ReadCount 2)
       \<lparr>source = 1, state = Closed, trace = [ReaderClose]\<rparr>
     = (\<lparr>source = 1, state = Closed, trace = [ReaderClose, ReaderClose]\<rparr> :: (nat, string) bridge)"
  by (simp add: bridge_eval numeral_2_eq_2)

text \<open>
  Claim C7, amended. For every bridge over a closable source with \<open>autoClose\<close> true,
  cancelling the stream before any pull has been issued results in exactly one close
  call on the source and in no enqueue, end or error signal. Cancelling a readable
  stream in any state \<open>b\<close>, a pull in flight or not, adds exactly one close call to the
  trace and closes the stream; a pull that was in flight then resumes, whatever its read
  settles to, with one more close call on the source (two when the read reports the end
  of data) and still without any enqueue, end or error signal.
\<close>

theorem cancel_closes_at_once:
  assumes c: "close reader = Some c" and a: "autoClose_of options"
  shows "cancel_stream reader options (new_bridge s)
         = (\<lparr>source = fst (c s), state = Closed, trace = [ReaderClose]\<rparr>, map_option Thrown (snd (c s)))
         \<and> (readable b \<longrightarrow>
              trace (fst (cancel_stream reader options b)) = trace b @ [ReaderClose]
              \<and> state (fst (cancel_stream reader options b)) = Closed
              \<and> trace (demand_end reader options chunk r (fst (cancel_stream reader options b)))
                  = trace b @ [ReaderClose]
                    @ (if r = ReadNull then [ReaderClose, ReaderClose] else [ReaderClose])
              \<and> state (demand_end reader options chunk r (fst (cancel_stream reader options b)))
                  = Closed)"
proof -
  have fresh: "cancel_stream reader options (new_bridge s)
         = (\<lparr>source = fst (c s), state = Closed, trace = [ReaderClose]\<rparr>, map_option Thrown (snd (c s)))"
    using c a
    by (simp add: cancel_stream_def cancel_def reader_close_def isCloser_def new_bridge_def
        readable_def split: prod.splits)
  have flight: "trace (fst (cancel_stream reader options b)) = trace b @ [ReaderClose]
              \<and> state (fst (cancel_stream reader options b)) = Closed
              \<and> trace (demand_end reader options chunk r (fst (cancel_stream reader options b)))
                  = trace b @ [ReaderClose]
                    @ (if r = ReadNull then [ReaderClose, ReaderClose] else [ReaderClose])
              \<and> state (demand_end reader options chunk r (fst (cancel_stream reader options b)))
                  = Closed"
    if rb: "readable b"
  proof -
    let ?b' = "fst (cancel_stream reader options b)"
    have t: "trace ?b' = trace b @ [ReaderClose]" and st: "state ?b' = Closed"
      using c a rb
      by (simp_all add: cancel_stream_def cancel_def reader_close_def isCloser_def split: prod.splits)
    have nr: "\<not> readable ?b'"
      using st by (simp add: readable_def)
    show ?thesis
      using pull_resume_not_readable [OF c a nr, of chunk r] t st
      by (simp add: demand_end_def)
  qed
  show ?thesis
    using fresh flight by blast
qed

theorem cancel_closes_at_once_witness:
  "cancel_stream (scripted_reader [([1, 2], ReadCount 2)] (Some None))
     \<lparr>autoClose = None, chunkSize = None\<rparr> (new_bridge 0)
   = (\<lparr>source = 0, state = Closed, trace = [ReaderClose]\<rparr> :: (nat, string) bridge, None)
   \<and> trace (demand_end (scripted_reader [([1, 2], ReadCount 2)] (Some None))
              \<lparr>autoClose = None, chunkSize = None\<rparr> [] ReadNull
              (fst (cancel_stream (scripted_reader [([1, 2], ReadCount 2)] (Some None))
                     \<lparr>autoClose = None, chunkSize = None\<rparr>
                     (\<lparr>source = 1, state = Pulling, trace = []\<rparr> :: (nat, string) bridge))))
     = [ReaderClose, ReaderClose, ReaderClose]"
proof -
  let ?rd = "scripted_reader [([1, 2], ReadCount 2)] (Some None) :: (nat, string) reader"
  let ?op = "\<lparr>autoClose = None, chunkSize = None\<rparr>"
  let ?b = "\<lparr>source = 1, state = Pulling, trace = []\<rparr> :: (nat, string) bridge"
  have c: "close ?rd = Some (\<lambda>s. (s, None))"
    by (simp add: scripted_close)
  have a: "autoClose_of ?op"
    by (simp add: autoClose_of_def)
  have rb: "readable ?b"
    by (simp add: readable_def)
  have 1: "cancel_stream ?rd ?op (new_bridge 0)
           = (\<lparr>source = 0, state = Closed, trace = [ReaderClose]\<rparr> :: (nat, string) bridge, None)"
    using cancel_closes_at_once [OF c a, of 0, THEN conjunct1] by simp
  have 2: "trace (demand_end ?rd ?op [] ReadNull (fst (cancel_stream ?rd ?op ?b)))
           = [ReaderClose, ReaderClose, ReaderClose]"
    using cancel_closes_at_once [OF c a, of _ ?b "[]" ReadNull, THEN conjunct2] rb by simp
  show ?thesis by (intro conjI) (fact 1 2)+
qed

end
